theory Spec2Isabelle
  imports Main
begin

section \<open>The auto-ingress operator: data model\<close>

text \<open>
  The operator has one handler of interest, \<open>manage_ingress\<close>, run for every create,
  update and resume event of a Service. It reads dictionaries supplied by the event
  source, builds one Ingress object and talks to the cluster through four calls of the
  networking client. Dictionaries read with \<open>.get\<close> become optional fields, the client
  objects become records, an exception raised becomes the left summand of a result, the
  logger becomes the list of records written, and the cluster behind the client becomes an
  explicit state that every call takes and returns.
\<close>

subsection \<open>Python truthiness\<close>

text \<open>
  The handler branches on \<open>if x:\<close> and \<open>if not x:\<close> for values read with \<open>.get\<close>.
  \<open>None\<close>, the empty string and the number zero are all false (and so is the empty
  list, which the handler's \<open>if not ports\<close> is written out for where it stands).
\<close>

definition truthy_str :: "string option \<Rightarrow> bool" where
  "truthy_str v = (case v of None \<Rightarrow> False | Some t \<Rightarrow> t \<noteq> [])"

definition truthy_int :: "int option \<Rightarrow> bool" where
  "truthy_int v = (case v of None \<Rightarrow> False | Some n \<Rightarrow> n \<noteq> 0)"

subsection \<open>Rendering values in log messages\<close>

text \<open>
  \<open>str\<close> of an integer, as the message formatting applies it to a port number: decimal
  digits, most significant first, with a minus sign for a negative number.
\<close>

definition digit_char :: "nat \<Rightarrow> char" where
  "digit_char d = char_of (48 + d)"

function str_nat :: "nat \<Rightarrow> string" where
  "str_nat n = (if n < 10 then [digit_char n] else str_nat (n div 10) @ [digit_char (n mod 10)])"
  by pat_completeness auto
termination
  by (relation "measure (\<lambda>n. n)") auto

declare str_nat.simps [simp del]

definition str_int :: "int \<Rightarrow> string" where
  "str_int i = (if i < 0 then CHR ''-'' # str_nat (nat (- i)) else str_nat (nat i))"

definition quote :: string where
  "quote = [CHR 0x27]"

subsection \<open>The watched Service, as the event source hands it over\<close>

text \<open>
  One entry of \<open>spec['ports']\<close>: the handler reads its keys \<open>name\<close> and \<open>port\<close> with
  \<open>.get\<close>, so either may be missing.
\<close>

record service_port =
  port_name :: "string option"
  port_number :: "int option"

record service_spec =
  ports :: "service_port list option"

text \<open>
  Metadata of a Service body: \<open>uid\<close> and \<open>annotations\<close>, both read with \<open>.get\<close>. A body
  carries \<open>apiVersion\<close> and \<open>metadata\<close>.
\<close>

record service_meta =
  uid :: "string option"
  meta_annotations :: "(string \<rightharpoonup> string) option"

record service_body =
  apiVersion :: "string option"
  metadata :: "service_meta option"

subsection \<open>The Ingress object of the client library\<close>

text \<open>
  Only the fields the handler sets are kept; every other field of the client classes keeps
  its default \<open>None\<close> and is left out.
\<close>

record V1ServiceBackendPort =
  bp_name :: "string option"
  bp_number :: "int option"

record V1IngressServiceBackend =
  sb_name :: string
  sb_port :: V1ServiceBackendPort

record V1IngressBackend =
  service :: V1IngressServiceBackend

record V1HTTPIngressPath =
  path :: string
  path_type :: string
  backend :: V1IngressBackend

record V1HTTPIngressRuleValue =
  paths :: "V1HTTPIngressPath list"

record V1IngressRule =
  http :: V1HTTPIngressRuleValue

record V1IngressSpec =
  rules :: "V1IngressRule list"

record V1OwnerReference =
  or_api_version :: "string option"
  or_kind :: string
  or_name :: string
  or_uid :: "string option"
  controller :: bool
  block_owner_deletion :: bool

record V1ObjectMeta =
  om_name :: string
  om_annotations :: "string \<rightharpoonup> string"
  owner_references :: "V1OwnerReference list"

record V1Ingress =
  ing_api_version :: string
  ing_kind :: string
  ing_metadata :: V1ObjectMeta
  ing_spec :: V1IngressSpec

subsection \<open>Exceptions, log records and the networking client\<close>

text \<open>
  An \<open>ApiException\<close> carries the HTTP status the handler tests and the text that
  formatting it into a message gives. It is what a call of the client raises and the only
  class the handler catches.
\<close>

datatype api_exception = ApiException (exc_status: int) (exc_text: string)

text \<open>
  What a run of the handler can raise: an \<open>ApiException\<close> that it lets through or raises
  again, or the \<open>ValueError\<close> of a client class that refuses to be built. No \<open>except\<close> of
  the handler catches a \<open>ValueError\<close>.
\<close>

datatype raised = ApiError api_exception | ValueError string

datatype level = INFO | WARNING | ERROR

type_synonym log_record = "level \<times> string"

text \<open>
  The four calls of \<open>NetworkingV1Api\<close> the handler uses, with the keyword arguments in
  the order \<open>name\<close>, \<open>namespace\<close>, \<open>body\<close>. Each call takes the state of the cluster and
  returns its answer (an exception or a value) and the state afterwards. Nothing is
  assumed about how a cluster answers.
\<close>

record 's NetworkingV1Api =
  read_namespaced_ingress :: "string \<Rightarrow> string \<Rightarrow> 's \<Rightarrow> (api_exception + V1Ingress) \<times> 's"
  replace_namespaced_ingress ::
    "string \<Rightarrow> string \<Rightarrow> V1Ingress \<Rightarrow> 's \<Rightarrow> (api_exception + V1Ingress) \<times> 's"
  create_namespaced_ingress :: "string \<Rightarrow> V1Ingress \<Rightarrow> 's \<Rightarrow> (api_exception + V1Ingress) \<times> 's"
  delete_namespaced_ingress :: "string \<Rightarrow> string \<Rightarrow> 's \<Rightarrow> (api_exception + unit) \<times> 's"

section \<open>The handler\<close>

definition AUTO_INGRESS_ANNOTATION :: string where
  "AUTO_INGRESS_ANNOTATION = ''auto-ingress''"

definition ingress_name_of :: "string \<Rightarrow> string" where
  "ingress_name_of name = ''auto-ingress-'' @ name @ ''-http''"

text \<open>
  \<open>old.get('metadata', {}).get('annotations', {}).get(AUTO_INGRESS_ANNOTATION)\<close>, taken
  only when \<open>old\<close> is given. An empty dictionary for \<open>old\<close> is false in Python and yields
  \<open>None\<close>; a body with no metadata yields \<open>None\<close> here as well, so both are the same
  input.
\<close>

definition old_auto_ingress_path_of :: "service_body option \<Rightarrow> string option" where
  "old_auto_ingress_path_of old =
     (case old of
        None \<Rightarrow> None
      | Some b \<Rightarrow>
          (case metadata b of
             None \<Rightarrow> None
           | Some m \<Rightarrow>
               (case meta_annotations m of
                  None \<Rightarrow> None
                | Some old_annotations \<Rightarrow> old_annotations AUTO_INGRESS_ANNOTATION)))"

text \<open>
  The backend port: \<open>V1ServiceBackendPort(name=...)\<close> when the name is true, otherwise
  \<open>V1ServiceBackendPort(number=...)\<close>.
\<close>

definition backend_port_of :: "service_port \<Rightarrow> V1ServiceBackendPort" where
  "backend_port_of port_info =
     (if truthy_str (port_name port_info)
      then \<lparr>bp_name = port_name port_info, bp_number = None\<rparr>
      else \<lparr>bp_name = None, bp_number = port_number port_info\<rparr>)"

text \<open>\<open>service_port_name or service_port_number\<close>, formatted into a message.\<close>

definition port_label :: "service_port \<Rightarrow> string" where
  "port_label port_info =
     (let number_label = (case port_number port_info of None \<Rightarrow> ''None'' | Some n \<Rightarrow> str_int n)
      in case port_name port_info of
           None \<Rightarrow> number_label
         | Some t \<Rightarrow> if t \<noteq> [] then t else number_label)"

text \<open>
  The constructor \<open>V1OwnerReference(...)\<close> belongs to the client library, not to the
  source. What is kept of it is the check its setters make when the object is built:
  \<open>api_version\<close> is set first and \<open>uid\<close> last, and each raises a \<open>ValueError\<close> for
  \<open>None\<close>. The handler passes \<open>body.get('apiVersion')\<close> and \<open>meta.get('uid')\<close>, which
  are \<open>None\<close> when the key is missing; \<open>kind\<close> and \<open>name\<close> are always strings here.
\<close>

definition new_V1OwnerReference ::
  "string option \<Rightarrow> string \<Rightarrow> string \<Rightarrow> string option \<Rightarrow> bool \<Rightarrow> bool \<Rightarrow>
   raised + V1OwnerReference" where
  "new_V1OwnerReference api_version kind name uid_value is_controller blocks_deletion =
     (if api_version = None
      then Inl (ValueError ''Invalid value for `api_version`, must not be `None`'')
      else if uid_value = None
      then Inl (ValueError ''Invalid value for `uid`, must not be `None`'')
      else Inr \<lparr>or_api_version = api_version,
                or_kind = kind,
                or_name = name,
                or_uid = uid_value,
                controller = is_controller,
                block_owner_deletion = blocks_deletion\<rparr>)"

text \<open>
  The expression \<open>V1Ingress(...)\<close> of the handler. Its arguments are evaluated in order,
  so the owner reference is built while the metadata is, and a \<open>ValueError\<close> there is the
  result of the whole expression.
\<close>

definition ingress_def_of ::
  "string \<Rightarrow> string \<Rightarrow> string option \<Rightarrow> string option \<Rightarrow> string \<Rightarrow> V1ServiceBackendPort \<Rightarrow>
   raised + V1Ingress" where
  "ingress_def_of ingress_name name service_uid service_api_version auto_ingress_path
      backend_port =
     (case new_V1OwnerReference service_api_version ''Service'' name service_uid True True of
        Inl e \<Rightarrow> Inl e
      | Inr owner_reference \<Rightarrow>
          Inr \<lparr>ing_api_version = ''networking.k8s.io/v1'',
               ing_kind = ''Ingress'',
               ing_metadata =
                 \<lparr>om_name = ingress_name,
                  om_annotations =
                    [''traefik.ingress.kubernetes.io/router.entrypoints'' \<mapsto> ''web''],
                  owner_references = [owner_reference]\<rparr>,
               ing_spec =
                 \<lparr>rules =
                    [\<lparr>http =
                        \<lparr>paths =
                           [\<lparr>path = auto_ingress_path,
                             path_type = ''Prefix'',
                             backend =
                               \<lparr>service = \<lparr>sb_name = name, sb_port = backend_port\<rparr>\<rparr>\<rparr>]\<rparr>\<rparr>]\<rparr>\<rparr>)"

subsection \<open>The upsert: look the Ingress up, then replace or create\<close>

text \<open>
  The record the outer \<open>except ApiException\<close> writes before it raises again. It sees every
  exception of the block, also the one the inner handler has already logged and raised.
\<close>

definition failed_create_or_update :: "string \<Rightarrow> api_exception \<Rightarrow> log_record" where
  "failed_create_or_update ingress_name e =
     (ERROR, ''Failed to create or update Ingress '' @ ingress_name @ '': '' @ exc_text e)"

text \<open>
  \<open>existing_ingress\<close> starts as \<open>None\<close> and is set by a read that returns. The object
  a read returns is an instance of a client class, which is true in \<open>if existing_ingress\<close>,
  so the replace branch is the branch of a read that returned and the create branch that of
  a read that raised with status 404. The values the replace and create calls return are
  dropped. Every exception of the block is an \<open>ApiException\<close> of a call.
\<close>

definition upsert ::
  "'s NetworkingV1Api \<Rightarrow> string \<Rightarrow> string \<Rightarrow> V1Ingress \<Rightarrow> 's \<Rightarrow>
   (raised + unit) \<times> log_record list \<times> 's" where
  "upsert networking_v1 ingress_name namespace ingress_def s =
     (case read_namespaced_ingress networking_v1 ingress_name namespace s of
        (Inl e, s1) \<Rightarrow>
          if exc_status e \<noteq> 404
          then (Inl (ApiError e),
                [(ERROR, ''Error checking for existing Ingress: '' @ exc_text e),
                 failed_create_or_update ingress_name e],
                s1)
          else
            (case create_namespaced_ingress networking_v1 namespace ingress_def s1 of
               (Inl e2, s2) \<Rightarrow>
                 (Inl (ApiError e2),
                  [(INFO, ''Creating new Ingress '' @ ingress_name @ ''.''),
                   failed_create_or_update ingress_name e2],
                  s2)
             | (Inr created, s2) \<Rightarrow>
                 (Inr (), [(INFO, ''Creating new Ingress '' @ ingress_name @ ''.'')], s2))
      | (Inr existing_ingress, s1) \<Rightarrow>
          (case replace_namespaced_ingress networking_v1 ingress_name namespace ingress_def s1 of
             (Inl e2, s2) \<Rightarrow>
               (Inl (ApiError e2),
                [(INFO, ''Ingress '' @ ingress_name @ '' already exists. Updating.''),
                 failed_create_or_update ingress_name e2],
                s2)
           | (Inr replaced, s2) \<Rightarrow>
               (Inr (), [(INFO, ''Ingress '' @ ingress_name @ '' already exists. Updating.'')],
                s2)))"

subsection \<open>Annotation present\<close>

text \<open>
  The two port guards return \<open>None\<close> after a warning. Past them the handler logs the port
  it uses, builds the Ingress definition (where the owner reference may refuse to be
  built: the exception leaves the handler at once, before the next message and before the
  \<open>try\<close> block, so no call is made) and runs the upsert.
\<close>

definition no_ports_warning :: "string \<Rightarrow> string \<Rightarrow> log_record" where
  "no_ports_warning namespace name =
     (WARNING, ''Service '' @ namespace @ ''/'' @ name @
        '' has no ports defined. Cannot create/update Ingress.'')"

definition incomplete_port_warning :: "string \<Rightarrow> string \<Rightarrow> log_record" where
  "incomplete_port_warning namespace name =
     (WARNING, ''Service '' @ namespace @ ''/'' @ name @
        '' has no name or port defined for the first port entry. Cannot create/update Ingress.'')"

definition annotation_present ::
  "'s NetworkingV1Api \<Rightarrow> service_spec \<Rightarrow> service_meta \<Rightarrow> service_body \<Rightarrow> string \<Rightarrow> string \<Rightarrow>
   string \<Rightarrow> 's \<Rightarrow> (raised + unit) \<times> log_record list \<times> 's" where
  "annotation_present networking_v1 spec meta body namespace name auto_ingress_path s =
     (let ingress_name = ingress_name_of name;
          found =
            (INFO, ''Found/Updated '' @ quote @ ''auto-ingress: '' @ auto_ingress_path @ quote @
               '' annotation for service '' @ namespace @ ''/'' @ name @ ''.'')
      in case ports spec of
           None \<Rightarrow> (Inr (), [found, no_ports_warning namespace name], s)
         | Some [] \<Rightarrow> (Inr (), [found, no_ports_warning namespace name], s)
         | Some (port_info # other_ports) \<Rightarrow>
             if \<not> truthy_str (port_name port_info) \<and> \<not> truthy_int (port_number port_info)
             then (Inr (), [found, incomplete_port_warning namespace name], s)
             else
               (let backend_port = backend_port_of port_info;
                    using_port =
                      (INFO, ''Using service port '' @ quote @ port_label port_info @ quote @
                         '' for Ingress backend.'');
                    service_uid = uid meta;
                    service_api_version = apiVersion body
                in case ingress_def_of ingress_name name service_uid service_api_version
                          auto_ingress_path backend_port of
                     Inl e \<Rightarrow> (Inl e, [found, using_port], s)
                   | Inr ingress_def \<Rightarrow>
                       (let creating =
                              (INFO, ''Creating/Updating Ingress '' @ ingress_name @
                                 '' in namespace '' @ namespace @ '' with path '' @ quote @
                                 auto_ingress_path @ quote @ '' pointing to service port '' @
                                 quote @ port_label port_info @ quote)
                        in case upsert networking_v1 ingress_name namespace ingress_def s of
                             (result, records, s') \<Rightarrow>
                               (result, [found, using_port, creating] @ records, s'))))"

subsection \<open>Annotation not present\<close>

definition annotation_absent ::
  "'s NetworkingV1Api \<Rightarrow> string \<Rightarrow> string \<Rightarrow> string option \<Rightarrow> 's \<Rightarrow>
   (raised + unit) \<times> log_record list \<times> 's" where
  "annotation_absent networking_v1 namespace name old_auto_ingress_path s =
     (let ingress_name = ingress_name_of name;
          no_annotation =
            (INFO, ''No '' @ quote @ ''auto-ingress'' @ quote @ '' annotation found for service '' @
               namespace @ ''/'' @ name @ ''.'')
      in if truthy_str old_auto_ingress_path
         then
           (let removed =
                  (INFO, quote @ ''auto-ingress'' @ quote @
                     '' annotation was removed. Deleting Ingress '' @ ingress_name @ ''.'')
            in case delete_namespaced_ingress networking_v1 ingress_name namespace s of
                 (Inr u, s') \<Rightarrow>
                   (Inr (),
                    [no_annotation, removed,
                     (INFO, ''Successfully deleted Ingress '' @ ingress_name @ ''.'')],
                    s')
               | (Inl e, s') \<Rightarrow>
                   if exc_status e = 404
                   then (Inr (),
                         [no_annotation, removed,
                          (INFO, ''Ingress '' @ ingress_name @ '' already deleted.'')],
                         s')
                   else (Inl (ApiError e),
                         [no_annotation, removed,
                          (ERROR, ''Failed to delete Ingress '' @ ingress_name @ '': '' @
                             exc_text e)],
                         s'))
         else
           (Inr (),
            [no_annotation,
             (INFO, ''Ingress '' @ ingress_name @ '' does not need to be created or deleted.'')],
            s))"

subsection \<open>\<open>manage_ingress\<close>\<close>

text \<open>
  The handler, with the keyword arguments it reads (\<open>status\<close>, \<open>labels\<close> and \<open>diff\<close> are
  never read), the client it constructs and the cluster state. It returns \<open>None\<close> on every
  path that does not raise, so the result is \<open>Inr ()\<close> or the exception raised; with it come
  the records logged, in order, and the cluster state afterwards.
\<close>

definition manage_ingress ::
  "'s NetworkingV1Api \<Rightarrow> service_spec \<Rightarrow> service_meta \<Rightarrow> service_body \<Rightarrow> string \<Rightarrow> string \<Rightarrow>
   (string \<rightharpoonup> string) \<Rightarrow> service_body option \<Rightarrow> 's \<Rightarrow>
   (raised + unit) \<times> log_record list \<times> 's" where
  "manage_ingress networking_v1 spec meta body namespace name annotations old s =
     (let processing = (INFO, ''Processing service '' @ namespace @ ''/'' @ name);
          auto_ingress_path = annotations AUTO_INGRESS_ANNOTATION;
          old_auto_ingress_path = old_auto_ingress_path_of old;
          branch =
            (case auto_ingress_path of
               None \<Rightarrow> annotation_absent networking_v1 namespace name old_auto_ingress_path s
             | Some p \<Rightarrow>
                 if p \<noteq> []
                 then annotation_present networking_v1 spec meta body namespace name p s
                 else annotation_absent networking_v1 namespace name old_auto_ingress_path s)
      in case branch of (result, records, s') \<Rightarrow> (result, processing # records, s'))"

section \<open>Observing the calls a run issues\<close>

datatype api_call =
    ReadCall string string
  | ReplaceCall string string V1Ingress
  | CreateCall string V1Ingress
  | DeleteCall string string

fun is_mutating :: "api_call \<Rightarrow> bool" where
  "is_mutating (ReadCall name namespace) = False"
| "is_mutating (ReplaceCall name namespace body) = True"
| "is_mutating (CreateCall namespace body) = True"
| "is_mutating (DeleteCall name namespace) = True"

text \<open>
  A client that answers as the given one does and writes down every call it receives,
  with its arguments, in order.
\<close>

definition traced :: "'s NetworkingV1Api \<Rightarrow> ('s \<times> api_call list) NetworkingV1Api" where
  "traced api =
     \<lparr>read_namespaced_ingress =
        (\<lambda>name namespace (s, cs).
           case read_namespaced_ingress api name namespace s of
             (r, s') \<Rightarrow> (r, (s', cs @ [ReadCall name namespace]))),
      replace_namespaced_ingress =
        (\<lambda>name namespace body (s, cs).
           case replace_namespaced_ingress api name namespace body s of
             (r, s') \<Rightarrow> (r, (s', cs @ [ReplaceCall name namespace body]))),
      create_namespaced_ingress =
        (\<lambda>namespace body (s, cs).
           case create_namespaced_ingress api namespace body s of
             (r, s') \<Rightarrow> (r, (s', cs @ [CreateCall namespace body]))),
      delete_namespaced_ingress =
        (\<lambda>name namespace (s, cs).
           case delete_namespaced_ingress api name namespace s of
             (r, s') \<Rightarrow> (r, (s', cs @ [DeleteCall name namespace])))\<rparr>"

definition calls ::
  "'s NetworkingV1Api \<Rightarrow> service_spec \<Rightarrow> service_meta \<Rightarrow> service_body \<Rightarrow> string \<Rightarrow> string \<Rightarrow>
   (string \<rightharpoonup> string) \<Rightarrow> service_body option \<Rightarrow> 's \<Rightarrow> api_call list" where
  "calls api spec meta body namespace name annotations old s =
     snd (snd (snd (manage_ingress (traced api) spec meta body namespace name annotations old
       (s, []))))"

definition outcome ::
  "'s NetworkingV1Api \<Rightarrow> service_spec \<Rightarrow> service_meta \<Rightarrow> service_body \<Rightarrow> string \<Rightarrow> string \<Rightarrow>
   (string \<rightharpoonup> string) \<Rightarrow> service_body option \<Rightarrow> 's \<Rightarrow> raised + unit" where
  "outcome api spec meta body namespace name annotations old s =
     fst (manage_ingress api spec meta body namespace name annotations old s)"

definition logged ::
  "'s NetworkingV1Api \<Rightarrow> service_spec \<Rightarrow> service_meta \<Rightarrow> service_body \<Rightarrow> string \<Rightarrow> string \<Rightarrow>
   (string \<rightharpoonup> string) \<Rightarrow> service_body option \<Rightarrow> 's \<Rightarrow> log_record list" where
  "logged api spec meta body namespace name annotations old s =
     fst (snd (manage_ingress api spec meta body namespace name annotations old s))"

definition state_after ::
  "'s NetworkingV1Api \<Rightarrow> service_spec \<Rightarrow> service_meta \<Rightarrow> service_body \<Rightarrow> string \<Rightarrow> string \<Rightarrow>
   (string \<rightharpoonup> string) \<Rightarrow> service_body option \<Rightarrow> 's \<Rightarrow> 's" where
  "state_after api spec meta body namespace name annotations old s =
     snd (snd (manage_ingress api spec meta body namespace name annotations old s))"

section \<open>The store behind the client\<close>

text \<open>
  Modelled from the spec: the resource store of section 6, which is an external
  collaborator and not part of the source. A store holds the Ingress objects by namespace
  and name. The interface there gives four operations, each of which may fail with an error
  that carries a status code, 404 meaning not found.
\<close>

type_synonym cluster = "string \<times> string \<rightharpoonup> V1Ingress"

definition not_found_error :: api_exception where
  "not_found_error = ApiException 404 ''Not Found''"

definition conflict_error :: api_exception where
  "conflict_error = ApiException 409 ''Conflict''"

text \<open>
  The store that never fails for a reason of its own: its state is the objects it holds,
  \<open>get\<close>, \<open>replace\<close> and \<open>delete\<close> answer 404 when there is no object, \<open>create\<close>
  answers a conflict when the name is taken.
\<close>

definition cluster_api :: "cluster NetworkingV1Api" where
  "cluster_api =
     \<lparr>read_namespaced_ingress =
        (\<lambda>name namespace c.
           case c (namespace, name) of
             None \<Rightarrow> (Inl not_found_error, c)
           | Some found \<Rightarrow> (Inr found, c)),
      replace_namespaced_ingress =
        (\<lambda>name namespace body c.
           case c (namespace, name) of
             None \<Rightarrow> (Inl not_found_error, c)
           | Some found \<Rightarrow> (Inr body, c((namespace, name) \<mapsto> body))),
      create_namespaced_ingress =
        (\<lambda>namespace body c.
           case c (namespace, om_name (ing_metadata body)) of
             None \<Rightarrow> (Inr body, c((namespace, om_name (ing_metadata body)) \<mapsto> body))
           | Some found \<Rightarrow> (Inl conflict_error, c)),
      delete_namespaced_ingress =
        (\<lambda>name namespace c.
           case c (namespace, name) of
             None \<Rightarrow> (Inl not_found_error, c)
           | Some found \<Rightarrow> (Inr (), c((namespace, name) := None)))\<rparr>"

text \<open>
  Modelled from the spec: what section 6 says of every store, whatever its inner state
  and whenever it chooses to fail. \<open>objects\<close> reads the objects a state holds. A \<open>get\<close>
  changes nothing, returns the object held, and answers 404 only when there is none. A
  \<open>create\<close> or \<open>replace\<close> that returns has stored the body given, whole, under its
  namespace and name; one that fails has changed nothing. A \<open>delete\<close> that returns has
  removed the object; one that fails has changed nothing, and answers 404 only when there
  was none.
\<close>

definition store_contract :: "'s NetworkingV1Api \<Rightarrow> ('s \<Rightarrow> cluster) \<Rightarrow> bool" where
  "store_contract api objects \<longleftrightarrow>
     (\<forall>name namespace s.
        case read_namespaced_ingress api name namespace s of
          (Inr found, s') \<Rightarrow>
            objects s' = objects s \<and> objects s (namespace, name) = Some found
        | (Inl e, s') \<Rightarrow>
            objects s' = objects s \<and>
            (exc_status e = 404 \<longrightarrow> objects s (namespace, name) = None)) \<and>
     (\<forall>name namespace body s.
        case replace_namespaced_ingress api name namespace body s of
          (Inr replaced, s') \<Rightarrow> objects s' = (objects s)((namespace, name) \<mapsto> body)
        | (Inl e, s') \<Rightarrow> objects s' = objects s) \<and>
     (\<forall>namespace body s.
        case create_namespaced_ingress api namespace body s of
          (Inr created, s') \<Rightarrow>
            objects s' = (objects s)((namespace, om_name (ing_metadata body)) \<mapsto> body)
        | (Inl e, s') \<Rightarrow> objects s' = objects s) \<and>
     (\<forall>name namespace s.
        case delete_namespaced_ingress api name namespace s of
          (Inr deleted, s') \<Rightarrow> objects s' = (objects s)((namespace, name) := None)
        | (Inl e, s') \<Rightarrow>
            objects s' = objects s \<and>
            (exc_status e = 404 \<longrightarrow> objects s (namespace, name) = None))"

section \<open>Vocabulary of the properties\<close>

text \<open>
  The two guards of the handler on \<open>spec['ports']\<close>, as one predicate: the list is there
  and not empty, and its first entry has a true name or a true number.
\<close>

definition ports_valid :: "service_spec \<Rightarrow> bool" where
  "ports_valid spec =
     (case ports spec of
        None \<Rightarrow> False
      | Some [] \<Rightarrow> False
      | Some (port_info # other_ports) \<Rightarrow>
          truthy_str (port_name port_info) \<or> truthy_int (port_number port_info))"

text \<open>The object a call writes, if it writes one.\<close>

fun written :: "api_call \<Rightarrow> V1Ingress option" where
  "written (ReadCall name namespace) = None"
| "written (ReplaceCall name namespace body) = Some body"
| "written (CreateCall namespace body) = Some body"
| "written (DeleteCall name namespace) = None"

section \<open>Scenarios\<close>

text \<open>
  Concrete events and clusters on which the results below are evaluated: the Service
  \<open>svc1\<close> of namespace \<open>ns1\<close> with the annotation \<open>/svc1\<close> and the port \<open>http\<close> (80),
  the same Service with no ports, with two ports and with an empty annotation value, the
  Ingress the handler builds for it, a cluster that holds this Ingress, metadata with no
  uid, a client that refuses every call with a given status, and a store that refuses every
  write.
\<close>

definition svc1_annotations :: "string \<rightharpoonup> string" where
  "svc1_annotations = [''auto-ingress'' \<mapsto> ''/svc1'']"

definition svc1_port :: service_port where
  "svc1_port = \<lparr>port_name = Some ''http'', port_number = Some 80\<rparr>"

definition svc1_spec :: service_spec where
  "svc1_spec = \<lparr>ports = Some [svc1_port]\<rparr>"

definition svc1_meta :: service_meta where
  "svc1_meta = \<lparr>uid = Some ''uid-1'', meta_annotations = Some svc1_annotations\<rparr>"

definition svc1_body :: service_body where
  "svc1_body = \<lparr>apiVersion = Some ''v1'', metadata = Some svc1_meta\<rparr>"

definition no_ports_spec :: service_spec where
  "no_ports_spec = \<lparr>ports = Some []\<rparr>"

definition two_ports_spec :: service_spec where
  "two_ports_spec =
     \<lparr>ports = Some [\<lparr>port_name = Some ''http'', port_number = Some 80\<rparr>,
                    \<lparr>port_name = Some ''metrics'', port_number = Some 9090\<rparr>]\<rparr>"

definition empty_annotations :: "string \<rightharpoonup> string" where
  "empty_annotations = [''auto-ingress'' \<mapsto> '''']"

definition empty_old :: service_body where
  "empty_old =
     \<lparr>apiVersion = Some ''v1'',
      metadata = Some \<lparr>uid = Some ''uid-1'', meta_annotations = Some empty_annotations\<rparr>\<rparr>"

definition svc1_ingress :: V1Ingress where
  "svc1_ingress =
     \<lparr>ing_api_version = ''networking.k8s.io/v1'',
      ing_kind = ''Ingress'',
      ing_metadata =
        \<lparr>om_name = ''auto-ingress-svc1-http'',
         om_annotations = [''traefik.ingress.kubernetes.io/router.entrypoints'' \<mapsto> ''web''],
         owner_references =
           [\<lparr>or_api_version = Some ''v1'', or_kind = ''Service'', or_name = ''svc1'',
             or_uid = Some ''uid-1'', controller = True, block_owner_deletion = True\<rparr>]\<rparr>,
      ing_spec =
        \<lparr>rules =
           [\<lparr>http =
               \<lparr>paths =
                  [\<lparr>path = ''/svc1'', path_type = ''Prefix'',
                    backend =
                      \<lparr>service =
                         \<lparr>sb_name = ''svc1'',
                          sb_port = \<lparr>bp_name = Some ''http'', bp_number = None\<rparr>\<rparr>\<rparr>\<rparr>]\<rparr>\<rparr>]\<rparr>\<rparr>"

definition svc1_cluster :: cluster where
  "svc1_cluster = [(''ns1'', ''auto-ingress-svc1-http'') \<mapsto> svc1_ingress]"

definition no_uid_meta :: service_meta where
  "no_uid_meta = \<lparr>uid = None, meta_annotations = Some svc1_annotations\<rparr>"

definition refusing_api :: "int \<Rightarrow> unit NetworkingV1Api" where
  "refusing_api code =
     \<lparr>read_namespaced_ingress = (\<lambda>name namespace u. (Inl (ApiException code ''refused''), u)),
      replace_namespaced_ingress =
        (\<lambda>name namespace body u. (Inl (ApiException code ''refused''), u)),
      create_namespaced_ingress = (\<lambda>namespace body u. (Inl (ApiException code ''refused''), u)),
      delete_namespaced_ingress = (\<lambda>name namespace u. (Inl (ApiException code ''refused''), u))\<rparr>"

text \<open>
  A store that can be read and refuses every write with status 403: the objects it holds
  never change.
\<close>

definition forbidding_api :: "cluster NetworkingV1Api" where
  "forbidding_api =
     \<lparr>read_namespaced_ingress = read_namespaced_ingress cluster_api,
      replace_namespaced_ingress =
        (\<lambda>name namespace body c. (Inl (ApiException 403 ''Forbidden''), c)),
      create_namespaced_ingress =
        (\<lambda>namespace body c. (Inl (ApiException 403 ''Forbidden''), c)),
      delete_namespaced_ingress =
        (\<lambda>name namespace c. (Inl (ApiException 403 ''Forbidden''), c))\<rparr>"

lemmas scenario_defs = svc1_annotations_def svc1_port_def svc1_spec_def svc1_meta_def
  svc1_body_def no_ports_spec_def two_ports_spec_def empty_annotations_def empty_old_def
  svc1_ingress_def svc1_cluster_def no_uid_meta_def refusing_api_def
  AUTO_INGRESS_ANNOTATION_def truthy_str_def truthy_int_def ports_valid_def
  old_auto_ingress_path_of_def ingress_name_of_def

lemmas run_defs = outcome_def state_after_def logged_def calls_def manage_ingress_def
  annotation_present_def annotation_absent_def upsert_def ingress_def_of_def
  new_V1OwnerReference_def cluster_api_def traced_def not_found_error_def conflict_error_def
  backend_port_of_def Let_def

section \<open>The recording client\<close>

lemma traced_read:
  "read_namespaced_ingress (traced api) n ns (s, cs) =
     (case read_namespaced_ingress api n ns s of (r, s') \<Rightarrow> (r, (s', cs @ [ReadCall n ns])))"
  by (simp add: traced_def)

lemma traced_replace:
  "replace_namespaced_ingress (traced api) n ns b (s, cs) =
     (case replace_namespaced_ingress api n ns b s of
        (r, s') \<Rightarrow> (r, (s', cs @ [ReplaceCall n ns b])))"
  by (simp add: traced_def)

lemma traced_create:
  "create_namespaced_ingress (traced api) ns b (s, cs) =
     (case create_namespaced_ingress api ns b s of
        (r, s') \<Rightarrow> (r, (s', cs @ [CreateCall ns b])))"
  by (simp add: traced_def)

lemma traced_delete:
  "delete_namespaced_ingress (traced api) n ns (s, cs) =
     (case delete_namespaced_ingress api n ns s of
        (r, s') \<Rightarrow> (r, (s', cs @ [DeleteCall n ns])))"
  by (simp add: traced_def)

lemmas traced_simps = traced_read traced_replace traced_create traced_delete

text \<open>
  Recording changes nothing: a run against the recording client raises or returns, logs
  and leaves the cluster exactly as the run against the client it wraps.
\<close>

lemma upsert_traced:
  "fst (upsert (traced api) n ns d (s, cs)) = fst (upsert api n ns d s) \<and>
   fst (snd (upsert (traced api) n ns d (s, cs))) = fst (snd (upsert api n ns d s)) \<and>
   fst (snd (snd (upsert (traced api) n ns d (s, cs)))) = snd (snd (upsert api n ns d s))"
  by (simp add: upsert_def traced_simps split: prod.splits sum.splits)

lemma annotation_absent_traced:
  "fst (annotation_absent (traced api) ns name old_path (s, cs)) =
     fst (annotation_absent api ns name old_path s) \<and>
   fst (snd (annotation_absent (traced api) ns name old_path (s, cs))) =
     fst (snd (annotation_absent api ns name old_path s)) \<and>
   fst (snd (snd (annotation_absent (traced api) ns name old_path (s, cs)))) =
     snd (snd (annotation_absent api ns name old_path s))"
  by (simp add: annotation_absent_def Let_def traced_simps split: prod.splits sum.splits)

lemma annotation_present_traced:
  "fst (annotation_present (traced api) spec meta body ns name p (s, cs)) =
     fst (annotation_present api spec meta body ns name p s) \<and>
   fst (snd (annotation_present (traced api) spec meta body ns name p (s, cs))) =
     fst (snd (annotation_present api spec meta body ns name p s)) \<and>
   fst (snd (snd (annotation_present (traced api) spec meta body ns name p (s, cs)))) =
     snd (snd (annotation_present api spec meta body ns name p s))"
  by (simp add: annotation_present_def Let_def upsert_traced case_prod_unfold
      split: option.splits list.splits sum.splits)

lemma traced_transparent:
  "fst (manage_ingress (traced api) spec meta body ns name ann old (s, cs)) =
     outcome api spec meta body ns name ann old s \<and>
   fst (snd (manage_ingress (traced api) spec meta body ns name ann old (s, cs))) =
     logged api spec meta body ns name ann old s \<and>
   fst (snd (snd (manage_ingress (traced api) spec meta body ns name ann old (s, cs)))) =
     state_after api spec meta body ns name ann old s"
  by (simp add: manage_ingress_def outcome_def logged_def state_after_def Let_def
      annotation_present_traced annotation_absent_traced case_prod_unfold
      split: option.splits)

section \<open>Building the Ingress definition\<close>

lemma ingress_def_refused:
  "(\<exists>e. ingress_def_of n name u v p bp = Inl e) \<longleftrightarrow> u = None \<or> v = None"
  by (auto simp add: ingress_def_of_def new_V1OwnerReference_def)

lemma ingress_def_built:
  "ingress_def_of n name u v p bp = Inr d \<longleftrightarrow>
     u \<noteq> None \<and> v \<noteq> None \<and>
     d = \<lparr>ing_api_version = ''networking.k8s.io/v1'',
          ing_kind = ''Ingress'',
          ing_metadata =
            \<lparr>om_name = n,
             om_annotations = [''traefik.ingress.kubernetes.io/router.entrypoints'' \<mapsto> ''web''],
             owner_references =
               [\<lparr>or_api_version = v, or_kind = ''Service'', or_name = name, or_uid = u,
                 controller = True, block_owner_deletion = True\<rparr>]\<rparr>,
          ing_spec =
            \<lparr>rules =
               [\<lparr>http =
                   \<lparr>paths =
                      [\<lparr>path = p, path_type = ''Prefix'',
                        backend = \<lparr>service = \<lparr>sb_name = name, sb_port = bp\<rparr>\<rparr>\<rparr>]\<rparr>\<rparr>]\<rparr>\<rparr>"
  by (auto simp add: ingress_def_of_def new_V1OwnerReference_def)

lemma ingress_def_exists:
  "u \<noteq> None \<Longrightarrow> v \<noteq> None \<Longrightarrow> \<exists>d. ingress_def_of n name u v p bp = Inr d"
  by (simp add: ingress_def_built)

lemma ingress_def_name:
  "ingress_def_of n name u v p bp = Inr d \<Longrightarrow> om_name (ing_metadata d) = n"
  by (simp add: ingress_def_built)

section \<open>The calls of each branch\<close>

lemma truthy_cases: "truthy_str v \<Longrightarrow> \<exists>p. v = Some p \<and> p \<noteq> []"
  by (auto simp add: truthy_str_def split: option.splits)

lemma valid_cases:
  "ports_valid spec \<Longrightarrow>
     \<exists>port_info other_ports. ports spec = Some (port_info # other_ports) \<and>
       (truthy_str (port_name port_info) \<or> truthy_int (port_number port_info))"
  by (auto simp add: ports_valid_def split: option.splits list.splits)

lemma upsert_traced_calls:
  "snd (snd (snd (upsert (traced api) n ns d (s, cs)))) =
     cs @ (case fst (read_namespaced_ingress api n ns s) of
             Inr existing \<Rightarrow> [ReadCall n ns, ReplaceCall n ns d]
           | Inl e \<Rightarrow> if exc_status e \<noteq> 404 then [ReadCall n ns]
                      else [ReadCall n ns, CreateCall ns d])"
  by (simp add: upsert_def traced_simps split: prod.splits sum.splits)

lemma calls_absent:
  assumes "\<not> truthy_str (ann AUTO_INGRESS_ANNOTATION)"
  shows "calls api spec meta body ns name ann old s =
           (if truthy_str (old_auto_ingress_path_of old)
            then [DeleteCall (ingress_name_of name) ns] else [])"
  using assms
  by (simp add: calls_def manage_ingress_def annotation_absent_def Let_def truthy_str_def
      traced_simps split: prod.splits sum.splits option.splits)

lemma calls_invalid:
  assumes "truthy_str (ann AUTO_INGRESS_ANNOTATION)" and "\<not> ports_valid spec"
  shows "calls api spec meta body ns name ann old s = []"
proof -
  from truthy_cases [OF assms(1)] obtain p
    where "ann AUTO_INGRESS_ANNOTATION = Some p" "p \<noteq> []" by blast
  with assms(2) show ?thesis
    by (auto simp add: calls_def manage_ingress_def annotation_present_def Let_def
        ports_valid_def split: option.splits list.splits)
qed

lemma calls_refused:
  assumes "ann AUTO_INGRESS_ANNOTATION = Some p" and "p \<noteq> []"
    and "ports spec = Some (port_info # other_ports)"
    and "ingress_def_of (ingress_name_of name) name (uid meta) (apiVersion body) p
           (backend_port_of port_info) = Inl e"
  shows "calls api spec meta body ns name ann old s = []"
  using assms
  by (simp add: calls_def manage_ingress_def annotation_present_def Let_def)

lemma calls_upsert:
  assumes "ann AUTO_INGRESS_ANNOTATION = Some p" and "p \<noteq> []"
    and "ports spec = Some (port_info # other_ports)"
    and "truthy_str (port_name port_info) \<or> truthy_int (port_number port_info)"
    and "ingress_def_of (ingress_name_of name) name (uid meta) (apiVersion body) p
           (backend_port_of port_info) = Inr d"
  shows "calls api spec meta body ns name ann old s =
           (case fst (read_namespaced_ingress api (ingress_name_of name) ns s) of
              Inr existing \<Rightarrow>
                [ReadCall (ingress_name_of name) ns, ReplaceCall (ingress_name_of name) ns d]
            | Inl e \<Rightarrow>
                if exc_status e \<noteq> 404 then [ReadCall (ingress_name_of name) ns]
                else [ReadCall (ingress_name_of name) ns, CreateCall ns d])"
proof -
  have "calls api spec meta body ns name ann old s =
          snd (snd (snd (upsert (traced api) (ingress_name_of name) ns d (s, []))))"
    using assms
    by (auto simp add: calls_def manage_ingress_def annotation_present_def Let_def
        split: prod.splits)
  then show ?thesis
    by (simp add: upsert_traced_calls)
qed

section \<open>The result and the cluster of each branch\<close>

lemma run_invalid:
  assumes "truthy_str (ann AUTO_INGRESS_ANNOTATION)" and "\<not> ports_valid spec"
  shows "outcome api spec meta body ns name ann old s = Inr ()"
    and "state_after api spec meta body ns name ann old s = s"
    and "length (filter (\<lambda>r. fst r = WARNING) (logged api spec meta body ns name ann old s)) = 1"
proof -
  from truthy_cases [OF assms(1)] obtain p
    where p: "ann AUTO_INGRESS_ANNOTATION = Some p" "p \<noteq> []" by blast
  from p assms(2) show "outcome api spec meta body ns name ann old s = Inr ()"
    by (auto simp add: outcome_def manage_ingress_def annotation_present_def Let_def
        ports_valid_def split: option.splits list.splits)
  from p assms(2) show "state_after api spec meta body ns name ann old s = s"
    by (auto simp add: state_after_def manage_ingress_def annotation_present_def Let_def
        ports_valid_def split: option.splits list.splits)
  from p assms(2)
  show "length (filter (\<lambda>r. fst r = WARNING) (logged api spec meta body ns name ann old s)) = 1"
    by (auto simp add: logged_def manage_ingress_def annotation_present_def Let_def
        ports_valid_def no_ports_warning_def incomplete_port_warning_def
        split: option.splits list.splits)
qed

lemma run_refused:
  assumes "ann AUTO_INGRESS_ANNOTATION = Some p" and "p \<noteq> []"
    and "ports spec = Some (port_info # other_ports)"
    and "truthy_str (port_name port_info) \<or> truthy_int (port_number port_info)"
    and "ingress_def_of (ingress_name_of name) name (uid meta) (apiVersion body) p
           (backend_port_of port_info) = Inl e"
  shows "outcome api spec meta body ns name ann old s = Inl e"
    and "state_after api spec meta body ns name ann old s = s"
  using assms
  by (auto simp add: outcome_def state_after_def manage_ingress_def annotation_present_def
      Let_def)

lemma run_upsert:
  assumes "ann AUTO_INGRESS_ANNOTATION = Some p" and "p \<noteq> []"
    and "ports spec = Some (port_info # other_ports)"
    and "truthy_str (port_name port_info) \<or> truthy_int (port_number port_info)"
    and "ingress_def_of (ingress_name_of name) name (uid meta) (apiVersion body) p
           (backend_port_of port_info) = Inr d"
  shows "outcome api spec meta body ns name ann old s =
           fst (upsert api (ingress_name_of name) ns d s)"
    and "state_after api spec meta body ns name ann old s =
           snd (snd (upsert api (ingress_name_of name) ns d s))"
  using assms
  by (auto simp add: outcome_def state_after_def manage_ingress_def annotation_present_def Let_def
      split: prod.splits)

lemma run_absent:
  assumes "\<not> truthy_str (ann AUTO_INGRESS_ANNOTATION)"
  shows "manage_ingress api spec meta body ns name ann old s =
           (case annotation_absent api ns name (old_auto_ingress_path_of old) s of
              (result, records, s') \<Rightarrow>
                (result, (INFO, ''Processing service '' @ ns @ ''/'' @ name) # records, s'))"
  using assms
  by (simp add: manage_ingress_def truthy_str_def Let_def split: option.splits)

section \<open>Runs against a store that keeps the contract\<close>

lemma cluster_api_contract: "store_contract cluster_api (\<lambda>c. c)"
  by (auto simp add: store_contract_def cluster_api_def not_found_error_def conflict_error_def
      split: option.splits)

lemma forbidding_api_contract: "store_contract forbidding_api (\<lambda>c. c)"
  by (auto simp add: store_contract_def forbidding_api_def cluster_api_def not_found_error_def
      split: option.splits)

lemma contract_read:
  assumes "store_contract api objects"
    and "read_namespaced_ingress api n ns s = (r, s')"
  shows "objects s' = objects s"
    and "r = Inl e \<Longrightarrow> exc_status e = 404 \<Longrightarrow> objects s (ns, n) = None"
proof -
  from assms(1)
  have c: "case read_namespaced_ingress api n ns s of
          (Inr found, s') \<Rightarrow> objects s' = objects s \<and> objects s (ns, n) = Some found
        | (Inl e, s') \<Rightarrow>
            objects s' = objects s \<and> (exc_status e = 404 \<longrightarrow> objects s (ns, n) = None)"
    by (simp add: store_contract_def)
  from c assms(2) show "objects s' = objects s"
    by (cases r) simp_all
  from c assms(2) show "r = Inl e \<Longrightarrow> exc_status e = 404 \<Longrightarrow> objects s (ns, n) = None"
    by simp
qed

lemma contract_replace:
  assumes "store_contract api objects"
    and "replace_namespaced_ingress api n ns b s = (r, s')"
  shows "objects s' = (case r of Inr replaced \<Rightarrow> (objects s)((ns, n) \<mapsto> b) | Inl e \<Rightarrow> objects s)"
proof -
  from assms(1)
  have "case replace_namespaced_ingress api n ns b s of
          (Inr replaced, s') \<Rightarrow> objects s' = (objects s)((ns, n) \<mapsto> b)
        | (Inl e, s') \<Rightarrow> objects s' = objects s"
    by (simp add: store_contract_def)
  with assms(2) show ?thesis
    by (cases r) simp_all
qed

lemma contract_create:
  assumes "store_contract api objects"
    and "create_namespaced_ingress api ns b s = (r, s')"
  shows "objects s' =
           (case r of
              Inr created \<Rightarrow> (objects s)((ns, om_name (ing_metadata b)) \<mapsto> b)
            | Inl e \<Rightarrow> objects s)"
proof -
  from assms(1)
  have "case create_namespaced_ingress api ns b s of
          (Inr created, s') \<Rightarrow> objects s' = (objects s)((ns, om_name (ing_metadata b)) \<mapsto> b)
        | (Inl e, s') \<Rightarrow> objects s' = objects s"
    by (simp add: store_contract_def)
  with assms(2) show ?thesis
    by (cases r) simp_all
qed

lemma contract_delete:
  assumes "store_contract api objects"
    and "delete_namespaced_ingress api n ns s = (r, s')"
  shows "objects s' =
           (case r of Inr deleted \<Rightarrow> (objects s)((ns, n) := None) | Inl e \<Rightarrow> objects s)"
    and "r = Inl e \<Longrightarrow> exc_status e = 404 \<Longrightarrow> objects s (ns, n) = None"
proof -
  from assms(1)
  have c: "case delete_namespaced_ingress api n ns s of
          (Inr deleted, s') \<Rightarrow> objects s' = (objects s)((ns, n) := None)
        | (Inl e, s') \<Rightarrow>
            objects s' = objects s \<and> (exc_status e = 404 \<longrightarrow> objects s (ns, n) = None)"
    by (simp add: store_contract_def)
  from c assms(2)
  show "objects s' =
          (case r of Inr deleted \<Rightarrow> (objects s)((ns, n) := None) | Inl e \<Rightarrow> objects s)"
    by (cases r) simp_all
  from c assms(2) show "r = Inl e \<Longrightarrow> exc_status e = 404 \<Longrightarrow> objects s (ns, n) = None"
    by simp
qed

text \<open>
  The upsert against such a store: when it completes, the object is stored under the name
  looked up; whether it completes or not, no other object changes; and when the object is
  already stored, nothing changes at all.
\<close>

lemma contract_upsert:
  assumes c: "store_contract api objects" and n: "om_name (ing_metadata d) = n"
  shows "fst (upsert api n ns d s) = Inr () \<Longrightarrow>
           objects (snd (snd (upsert api n ns d s))) = (objects s)((ns, n) \<mapsto> d)"
    and "slot \<noteq> (ns, n) \<Longrightarrow> objects (snd (snd (upsert api n ns d s))) slot = objects s slot"
    and "objects s (ns, n) = Some d \<Longrightarrow> objects (snd (snd (upsert api n ns d s))) = objects s"
proof -
  obtain r s1 where rd: "read_namespaced_ingress api n ns s = (r, s1)"
    by (cases "read_namespaced_ingress api n ns s")
  obtain rr s2 where rp: "replace_namespaced_ingress api n ns d s1 = (rr, s2)"
    by (cases "replace_namespaced_ingress api n ns d s1")
  obtain rc s3 where cr: "create_namespaced_ingress api ns d s1 = (rc, s3)"
    by (cases "create_namespaced_ingress api ns d s1")
  note o1 = contract_read(1) [OF c rd]
  note nf = contract_read(2) [OF c rd]
  note o2 = contract_replace [OF c rp]
  note o3 = contract_create [OF c cr]
  show "fst (upsert api n ns d s) = Inr () \<Longrightarrow>
          objects (snd (snd (upsert api n ns d s))) = (objects s)((ns, n) \<mapsto> d)"
    using rd rp cr o1 o2 o3 n
    by (auto simp add: upsert_def split: sum.splits if_splits)
  show "slot \<noteq> (ns, n) \<Longrightarrow> objects (snd (snd (upsert api n ns d s))) slot = objects s slot"
    using rd rp cr o1 o2 o3 n
    by (auto simp add: upsert_def split: sum.splits if_splits)
  show "objects s (ns, n) = Some d \<Longrightarrow> objects (snd (snd (upsert api n ns d s))) = objects s"
    using rd rp cr o1 o2 o3 nf n
    by (auto simp add: upsert_def fun_upd_idem_iff split: sum.splits if_splits)
qed

lemma contract_absent:
  assumes c: "store_contract api objects"
  shows "fst (annotation_absent api ns name old_path s) = Inr () \<Longrightarrow> truthy_str old_path \<Longrightarrow>
           objects (snd (snd (annotation_absent api ns name old_path s)))
             (ns, ingress_name_of name) = None"
    and "\<not> truthy_str old_path \<Longrightarrow> snd (snd (annotation_absent api ns name old_path s)) = s"
    and "slot \<noteq> (ns, ingress_name_of name) \<Longrightarrow>
           objects (snd (snd (annotation_absent api ns name old_path s))) slot = objects s slot"
proof -
  obtain r s1 where dl: "delete_namespaced_ingress api (ingress_name_of name) ns s = (r, s1)"
    by (cases "delete_namespaced_ingress api (ingress_name_of name) ns s")
  note o = contract_delete(1) [OF c dl]
  note nf = contract_delete(2) [OF c dl]
  show "fst (annotation_absent api ns name old_path s) = Inr () \<Longrightarrow> truthy_str old_path \<Longrightarrow>
          objects (snd (snd (annotation_absent api ns name old_path s)))
            (ns, ingress_name_of name) = None"
    using dl o nf
    by (auto simp add: annotation_absent_def Let_def split: sum.splits if_splits)
  show "\<not> truthy_str old_path \<Longrightarrow> snd (snd (annotation_absent api ns name old_path s)) = s"
    by (simp add: annotation_absent_def Let_def)
  show "slot \<noteq> (ns, ingress_name_of name) \<Longrightarrow>
          objects (snd (snd (annotation_absent api ns name old_path s))) slot = objects s slot"
    using dl o
    by (auto simp add: annotation_absent_def Let_def split: sum.splits if_splits)
qed

text \<open>
  When the Service carries no uid or no \<open>apiVersion\<close>, the upsert path ends where the
  owner reference is built: the run raises a \<open>ValueError\<close>, no call is made and the
  cluster is left as it is.
\<close>

lemma refused_definition_no_call:
  assumes "truthy_str (ann AUTO_INGRESS_ANNOTATION)" and "ports_valid spec"
    and "uid meta = None \<or> apiVersion body = None"
  shows "(\<exists>message. outcome api spec meta body ns name ann old s = Inl (ValueError message)) \<and>
         calls api spec meta body ns name ann old s = [] \<and>
         state_after api spec meta body ns name ann old s = s"
proof -
  from truthy_cases [OF assms(1)] obtain p
    where p: "ann AUTO_INGRESS_ANNOTATION = Some p" "p \<noteq> []" by blast
  from valid_cases [OF assms(2)] obtain port_info other_ports
    where q: "ports spec = Some (port_info # other_ports)"
      "truthy_str (port_name port_info) \<or> truthy_int (port_number port_info)" by blast
  have "\<exists>message. ingress_def_of (ingress_name_of name) name (uid meta) (apiVersion body) p
          (backend_port_of port_info) = Inl (ValueError message)"
  proof (cases "apiVersion body = None")
    case True
    then show ?thesis
      by (simp add: ingress_def_of_def new_V1OwnerReference_def)
  next
    case False
    with assms(3) show ?thesis
      by (simp add: ingress_def_of_def new_V1OwnerReference_def)
  qed
  then obtain message
    where r: "ingress_def_of (ingress_name_of name) name (uid meta) (apiVersion body) p
                (backend_port_of port_info) = Inl (ValueError message)"
    by blast
  show ?thesis
    using run_refused [where ann = ann and api = api and ns = ns and old = old and s = s,
        OF p q r]
      calls_refused [where ann = ann and api = api and ns = ns and old = old and s = s,
        OF p q(1) r]
    by simp
qed

text \<open>
  The Service \<open>svc1\<close> with no uid on an empty cluster: the run raises the
  \<open>ValueError\<close> of the owner reference and the cluster stays empty.
\<close>

lemma missing_uid_run:
  "outcome cluster_api svc1_spec no_uid_meta svc1_body ''ns1'' ''svc1'' svc1_annotations None
     Map.empty = Inl (ValueError ''Invalid value for `uid`, must not be `None`'') \<and>
   calls cluster_api svc1_spec no_uid_meta svc1_body ''ns1'' ''svc1'' svc1_annotations None
     Map.empty = [] \<and>
   state_after cluster_api svc1_spec no_uid_meta svc1_body ''ns1'' ''svc1'' svc1_annotations None
     Map.empty = Map.empty"
  by (simp add: scenario_defs run_defs)

text \<open>
  On the store that never fails of its own, a run of the upsert path completes for every
  Service that carries its uid and its \<open>apiVersion\<close>; on the store that refuses every write
  the same run raises.
\<close>

lemma cluster_run_completes:
  assumes "truthy_str (ann AUTO_INGRESS_ANNOTATION)" and "ports_valid spec"
    and "uid meta \<noteq> None" and "apiVersion body \<noteq> None"
  shows "outcome cluster_api spec meta body ns name ann old c = Inr ()"
proof -
  from truthy_cases [OF assms(1)] obtain p
    where p: "ann AUTO_INGRESS_ANNOTATION = Some p" "p \<noteq> []" by blast
  from valid_cases [OF assms(2)] obtain port_info other_ports
    where q: "ports spec = Some (port_info # other_ports)"
      "truthy_str (port_name port_info) \<or> truthy_int (port_number port_info)" by blast
  from ingress_def_exists [OF assms(3) assms(4)] obtain d
    where d: "ingress_def_of (ingress_name_of name) name (uid meta) (apiVersion body) p
                (backend_port_of port_info) = Inr d"
    by blast
  from ingress_def_name [OF d] show ?thesis
    by (simp add: run_upsert [where ann = ann, OF p q d] upsert_def cluster_api_def
        not_found_error_def split: option.splits)
qed

lemma forbidden_run_raises:
  "outcome forbidding_api svc1_spec svc1_meta svc1_body ''ns1'' ''svc1'' svc1_annotations None
     Map.empty = Inl (ApiError (ApiException 403 ''Forbidden''))"
  by (simp add: scenario_defs run_defs forbidding_api_def)

section \<open>Convergence and idempotence\<close>

text \<open>
  C1, as amended. For every Service state and every store that keeps the contract of the
  store interface, after one run of the handler that completes without a fatal error: if
  the annotation is set to a non-empty value and the ports are valid, the Ingress
  \<open>auto-ingress-<name>-http\<close> exists in the namespace; if the annotation is missing or
  empty and the prior annotation was non-empty, it does not exist; in every other case
  (annotation non-empty with invalid ports, or annotation missing or empty with no non-empty
  prior annotation) the store is left exactly as it was, so the Ingress exists if and only
  if it existed before. No object under another namespace or name is changed.
\<close>

theorem reconcile_store_effect:
  assumes "store_contract api objects"
    and "outcome api spec meta body namespace name annotations old s = Inr ()"
  shows "(truthy_str (annotations AUTO_INGRESS_ANNOTATION) \<and> ports_valid spec \<longrightarrow>
            objects (state_after api spec meta body namespace name annotations old s)
              (namespace, ingress_name_of name) \<noteq> None) \<and>
         (\<not> truthy_str (annotations AUTO_INGRESS_ANNOTATION) \<and>
          truthy_str (old_auto_ingress_path_of old) \<longrightarrow>
            objects (state_after api spec meta body namespace name annotations old s)
              (namespace, ingress_name_of name) = None) \<and>
         (\<not> (truthy_str (annotations AUTO_INGRESS_ANNOTATION) \<and> ports_valid spec) \<and>
          \<not> (\<not> truthy_str (annotations AUTO_INGRESS_ANNOTATION) \<and>
             truthy_str (old_auto_ingress_path_of old)) \<longrightarrow>
            state_after api spec meta body namespace name annotations old s = s) \<and>
         (\<forall>slot. slot \<noteq> (namespace, ingress_name_of name) \<longrightarrow>
            objects (state_after api spec meta body namespace name annotations old s) slot =
              objects s slot)"
proof (cases "truthy_str (annotations AUTO_INGRESS_ANNOTATION)")
  case False
  from assms(2) False
  have "fst (annotation_absent api namespace name (old_auto_ingress_path_of old) s) = Inr ()"
    by (simp add: outcome_def run_absent case_prod_unfold)
  with False show ?thesis
    using
      contract_absent [OF assms(1), where ns = namespace and name = name
        and old_path = "old_auto_ingress_path_of old" and s = s]
    by (simp add: state_after_def run_absent case_prod_unfold)
next
  case True
  show ?thesis
  proof (cases "ports_valid spec")
    case False
    with True show ?thesis by (simp add: run_invalid)
  next
    case valid: True
    from truthy_cases [OF True] obtain p
      where p: "annotations AUTO_INGRESS_ANNOTATION = Some p" "p \<noteq> []" by blast
    from valid_cases [OF valid] obtain port_info other_ports
      where q: "ports spec = Some (port_info # other_ports)"
        "truthy_str (port_name port_info) \<or> truthy_int (port_number port_info)" by blast
    show ?thesis
    proof (cases "ingress_def_of (ingress_name_of name) name (uid meta) (apiVersion body) p
        (backend_port_of port_info)")
      case (Inl e)
      from
        run_refused(1) [where ann = annotations and api = api and ns = namespace
          and old = old and s = s, OF p q Inl]
        assms(2)
      show ?thesis by simp
    next
      case (Inr d)
      note run =
        run_upsert [where ann = annotations and api = api and ns = namespace and old = old,
          OF p q Inr]
      note up =
        contract_upsert [OF assms(1) ingress_def_name [OF Inr], where ns = namespace and s = s]
      from assms(2) have "fst (upsert api (ingress_name_of name) namespace d s) = Inr ()"
        by (simp add: run)
      from up(1) [OF this] up(2) True valid show ?thesis
        by (simp add: run)
    qed
  qed
qed

text \<open>
  The amended C1 on the store that never fails of its own, at three events: the annotated
  Service on an empty cluster (the Ingress exists afterwards), the Service whose annotation
  was removed on a cluster that holds its Ingress (it is gone afterwards), and the
  annotated Service with no ports on that cluster (the cluster is unchanged).
\<close>

theorem reconcile_store_effect_witness:
  "store_contract cluster_api (\<lambda>c. c) \<and>
   outcome cluster_api svc1_spec svc1_meta svc1_body ''ns1'' ''svc1'' svc1_annotations None
     Map.empty = Inr () \<and>
   truthy_str (svc1_annotations AUTO_INGRESS_ANNOTATION) \<and> ports_valid svc1_spec \<and>
   state_after cluster_api svc1_spec svc1_meta svc1_body ''ns1'' ''svc1'' svc1_annotations None
     Map.empty (''ns1'', ingress_name_of ''svc1'') \<noteq> None \<and>
   outcome cluster_api svc1_spec svc1_meta svc1_body ''ns1'' ''svc1'' Map.empty
     (Some svc1_body) svc1_cluster = Inr () \<and>
   \<not> truthy_str (Map.empty AUTO_INGRESS_ANNOTATION) \<and>
   truthy_str (old_auto_ingress_path_of (Some svc1_body)) \<and>
   state_after cluster_api svc1_spec svc1_meta svc1_body ''ns1'' ''svc1'' Map.empty
     (Some svc1_body) svc1_cluster (''ns1'', ingress_name_of ''svc1'') = None \<and>
   outcome cluster_api no_ports_spec svc1_meta svc1_body ''ns1'' ''svc1'' svc1_annotations None
     svc1_cluster = Inr () \<and>
   \<not> ports_valid no_ports_spec \<and>
   state_after cluster_api no_ports_spec svc1_meta svc1_body ''ns1'' ''svc1'' svc1_annotations
     None svc1_cluster = svc1_cluster"
proof -
  have upsert_completes:
    "outcome cluster_api svc1_spec svc1_meta svc1_body ''ns1'' ''svc1'' svc1_annotations None
       Map.empty = Inr ()"
    by (simp add: scenario_defs run_defs)
  have removal_completes:
    "outcome cluster_api svc1_spec svc1_meta svc1_body ''ns1'' ''svc1'' Map.empty
       (Some svc1_body) svc1_cluster = Inr ()"
    by (simp add: scenario_defs run_defs)
  have warning_completes:
    "outcome cluster_api no_ports_spec svc1_meta svc1_body ''ns1'' ''svc1'' svc1_annotations None
       svc1_cluster = Inr ()"
    by (simp add: scenario_defs run_defs)
  have conditions:
    "truthy_str (svc1_annotations AUTO_INGRESS_ANNOTATION) \<and> ports_valid svc1_spec \<and>
     \<not> truthy_str (Map.empty AUTO_INGRESS_ANNOTATION) \<and>
     truthy_str (old_auto_ingress_path_of (Some svc1_body)) \<and> \<not> ports_valid no_ports_spec"
    by (simp add: scenario_defs)
  from conditions upsert_completes removal_completes warning_completes cluster_api_contract
    reconcile_store_effect [OF cluster_api_contract upsert_completes]
    reconcile_store_effect [OF cluster_api_contract removal_completes]
    reconcile_store_effect [OF cluster_api_contract warning_completes]
  show ?thesis by simp
qed

text \<open>
  C1 as stated fails. On a cluster that already holds \<open>auto-ingress-svc1-http\<close>, a run
  for \<open>svc1\<close> with the annotation \<open>/svc1\<close> and an empty port list completes, and the
  Ingress is still there although the ports are not valid; and a run with no annotation and
  no prior body completes, and the Ingress is still there although there is no annotation.
\<close>

theorem convergence_counterexample:
  "outcome cluster_api no_ports_spec svc1_meta svc1_body ''ns1'' ''svc1'' svc1_annotations None
     svc1_cluster = Inr () \<and>
   \<not> (state_after cluster_api no_ports_spec svc1_meta svc1_body ''ns1'' ''svc1'' svc1_annotations
        None svc1_cluster (''ns1'', ''auto-ingress-svc1-http'') \<noteq> None \<longleftrightarrow>
      truthy_str (svc1_annotations AUTO_INGRESS_ANNOTATION) \<and> ports_valid no_ports_spec) \<and>
   outcome cluster_api svc1_spec svc1_meta svc1_body ''ns1'' ''svc1'' Map.empty None
     svc1_cluster = Inr () \<and>
   \<not> (state_after cluster_api svc1_spec svc1_meta svc1_body ''ns1'' ''svc1'' Map.empty
        None svc1_cluster (''ns1'', ''auto-ingress-svc1-http'') \<noteq> None \<longleftrightarrow>
      truthy_str (Map.empty AUTO_INGRESS_ANNOTATION) \<and> ports_valid svc1_spec)"
  by (simp add: outcome_def state_after_def manage_ingress_def annotation_present_def
      annotation_absent_def scenario_defs)

text \<open>
  C2. For every Service state with a non-empty annotation and valid ports and every store
  that keeps the contract of the store interface: when a run completes, the Ingress exists,
  and a second run on the state the first one left leaves the objects of the store exactly
  as the first run left them, so the Ingress has the same content after the second run as
  after the first and nothing else has changed. The same holds after any number of runs in
  a row.
\<close>

theorem upsert_idempotent:
  assumes "store_contract api objects"
    and "truthy_str (annotations AUTO_INGRESS_ANNOTATION)" and "ports_valid spec"
    and "outcome api spec meta body namespace name annotations old s = Inr ()"
  shows "objects (state_after api spec meta body namespace name annotations old s)
           (namespace, ingress_name_of name) \<noteq> None \<and>
         objects (state_after api spec meta body namespace name annotations old
           (state_after api spec meta body namespace name annotations old s)) =
         objects (state_after api spec meta body namespace name annotations old s) \<and>
         (\<forall>n. objects
                ((state_after api spec meta body namespace name annotations old ^^ Suc n) s) =
              objects (state_after api spec meta body namespace name annotations old s))"
proof -
  from truthy_cases [OF assms(2)] obtain p
    where p: "annotations AUTO_INGRESS_ANNOTATION = Some p" "p \<noteq> []" by blast
  from valid_cases [OF assms(3)] obtain port_info other_ports
    where q: "ports spec = Some (port_info # other_ports)"
      "truthy_str (port_name port_info) \<or> truthy_int (port_number port_info)" by blast
  let ?run = "state_after api spec meta body namespace name annotations old"
  let ?slot = "(namespace, ingress_name_of name)"
  obtain d where d: "ingress_def_of (ingress_name_of name) name (uid meta) (apiVersion body) p
      (backend_port_of port_info) = Inr d"
  proof (cases "ingress_def_of (ingress_name_of name) name (uid meta) (apiVersion body) p
      (backend_port_of port_info)")
    case (Inl e)
    from
      run_refused(1) [where ann = annotations and api = api and ns = namespace
        and old = old and s = s, OF p q Inl]
      assms(4)
    show ?thesis by simp
  next
    case (Inr built)
    with that show ?thesis .
  qed
  note run =
    run_upsert [where ann = annotations and api = api and ns = namespace and old = old,
      OF p q d]
  note up = contract_upsert [OF assms(1) ingress_def_name [OF d], where ns = namespace]
  from assms(4) have "fst (upsert api (ingress_name_of name) namespace d s) = Inr ()"
    by (simp add: run)
  from up(1) [OF this] have first: "objects (?run s) ?slot = Some d"
    by (simp add: run)
  have keeps: "objects (?run x) = objects x" if "objects x ?slot = Some d" for x
    using up(3) [OF that] by (simp add: run)
  have every: "objects ((?run ^^ Suc n) s) = objects (?run s)" for n
  proof (induction n)
    case 0
    show ?case by simp
  next
    case (Suc n)
    from Suc.IH first have "objects ((?run ^^ Suc n) s) ?slot = Some d"
      by simp
    from keeps [OF this] Suc.IH show ?case
      by simp
  qed
  from first keeps [OF first] every show ?thesis
    by simp
qed

text \<open>
  C2 at the annotated Service \<open>svc1\<close> on the store that never fails of its own, run twice
  and three times from an empty cluster.
\<close>

theorem upsert_idempotent_witness:
  "store_contract cluster_api (\<lambda>c. c) \<and>
   truthy_str (svc1_annotations AUTO_INGRESS_ANNOTATION) \<and> ports_valid svc1_spec \<and>
   outcome cluster_api svc1_spec svc1_meta svc1_body ''ns1'' ''svc1'' svc1_annotations None
     Map.empty = Inr () \<and>
   state_after cluster_api svc1_spec svc1_meta svc1_body ''ns1'' ''svc1'' svc1_annotations None
     Map.empty (''ns1'', ingress_name_of ''svc1'') \<noteq> None \<and>
   state_after cluster_api svc1_spec svc1_meta svc1_body ''ns1'' ''svc1'' svc1_annotations None
     (state_after cluster_api svc1_spec svc1_meta svc1_body ''ns1'' ''svc1'' svc1_annotations
        None Map.empty) =
   state_after cluster_api svc1_spec svc1_meta svc1_body ''ns1'' ''svc1'' svc1_annotations None
     Map.empty \<and>
   (state_after cluster_api svc1_spec svc1_meta svc1_body ''ns1'' ''svc1'' svc1_annotations None
      ^^ Suc 2) Map.empty =
   state_after cluster_api svc1_spec svc1_meta svc1_body ''ns1'' ''svc1'' svc1_annotations None
     Map.empty"
proof -
  have present: "truthy_str (svc1_annotations AUTO_INGRESS_ANNOTATION)"
    by (simp add: scenario_defs)
  have valid: "ports_valid svc1_spec"
    by (simp add: scenario_defs)
  have completes:
    "outcome cluster_api svc1_spec svc1_meta svc1_body ''ns1'' ''svc1'' svc1_annotations None
       Map.empty = Inr ()"
    by (simp add: scenario_defs run_defs)
  from present valid completes cluster_api_contract
    upsert_idempotent [OF cluster_api_contract present valid completes]
  show ?thesis by blast
qed

section \<open>The calls a run issues\<close>

text \<open>
  C3. When the annotation is present (set to a non-empty value; an empty value takes the
  other branch, see C10) and the Service has no ports, or its first port entry has neither
  a name nor a number, the handler completes without raising, issues no call at all to the
  client, leaves the cluster as it is, and logs exactly one warning. This holds whatever
  the client would answer.
\<close>

theorem invalid_ports_no_store_call:
  assumes "truthy_str (annotations AUTO_INGRESS_ANNOTATION)" and "\<not> ports_valid spec"
  shows "outcome api spec meta body namespace name annotations old s = Inr () \<and>
         calls api spec meta body namespace name annotations old s = [] \<and>
         state_after api spec meta body namespace name annotations old s = s \<and>
         length (filter (\<lambda>r. fst r = WARNING)
           (logged api spec meta body namespace name annotations old s)) = 1"
  using assms by (simp add: run_invalid calls_invalid)

text \<open>C3 at the annotated Service with an empty port list.\<close>

theorem invalid_ports_no_store_call_witness:
  "truthy_str (svc1_annotations AUTO_INGRESS_ANNOTATION) \<and> \<not> ports_valid no_ports_spec \<and>
   outcome cluster_api no_ports_spec svc1_meta svc1_body ''ns1'' ''svc1'' svc1_annotations None
     svc1_cluster = Inr () \<and>
   calls cluster_api no_ports_spec svc1_meta svc1_body ''ns1'' ''svc1'' svc1_annotations None
     svc1_cluster = [] \<and>
   length (filter (\<lambda>r. fst r = WARNING)
     (logged cluster_api no_ports_spec svc1_meta svc1_body ''ns1'' ''svc1'' svc1_annotations None
        svc1_cluster)) = 1"
  using
    invalid_ports_no_store_call [where annotations = svc1_annotations and spec = no_ports_spec
      and api = cluster_api and meta = svc1_meta and body = svc1_body and namespace = "''ns1''"
      and name = "''svc1''" and old = None and s = svc1_cluster]
  by (simp add: scenario_defs)

text \<open>
  C4. When the prior annotation was present and the current annotation is absent (missing
  or empty), the calls of the run are exactly one delete, of \<open>auto-ingress-<name>-http\<close>
  in the namespace of the event: no read, no create and no replace, whatever the client
  answers.
\<close>

theorem removal_issues_one_delete:
  assumes "\<not> truthy_str (annotations AUTO_INGRESS_ANNOTATION)"
    and "truthy_str (old_auto_ingress_path_of old)"
  shows "calls api spec meta body namespace name annotations old s =
           [DeleteCall (''auto-ingress-'' @ name @ ''-http'') namespace]"
  using assms by (simp add: calls_absent ingress_name_of_def)

text \<open>C4 at \<open>svc1\<close> with the annotation removed and the prior annotation \<open>/svc1\<close>.\<close>

theorem removal_issues_one_delete_witness:
  "\<not> truthy_str (Map.empty AUTO_INGRESS_ANNOTATION) \<and>
   truthy_str (old_auto_ingress_path_of (Some svc1_body)) \<and>
   calls cluster_api svc1_spec svc1_meta svc1_body ''ns1'' ''svc1'' Map.empty (Some svc1_body)
     svc1_cluster = [DeleteCall ''auto-ingress-svc1-http'' ''ns1'']"
  using
    removal_issues_one_delete [where annotations = Map.empty and old = "Some svc1_body"
      and api = cluster_api and spec = svc1_spec and meta = svc1_meta and body = svc1_body
      and namespace = "''ns1''" and name = "''svc1''" and s = svc1_cluster]
  by (simp add: scenario_defs)

text \<open>
  C5. In the upsert path (annotation non-empty, first port with a name or a number, and a
  Service that carries its uid and its \<open>apiVersion\<close>, as every watched resource of the data
  model does, so that the definition is built) the first call is the read of
  \<open>auto-ingress-<name>-http\<close>. If the read returns an object, the calls are that read and
  one replace whose body is the freshly built definition (nothing of the object read
  enters it). If the read raises with status 404, the calls are that read and one create of
  the same definition. If the read raises with any other status, the read is the only call
  and the run raises that exception.
\<close>

theorem upsert_lookup_branching:
  assumes "annotations AUTO_INGRESS_ANNOTATION = Some auto_ingress_path"
    and "auto_ingress_path \<noteq> []"
    and "ports spec = Some (port_info # other_ports)"
    and "truthy_str (port_name port_info) \<or> truthy_int (port_number port_info)"
    and "uid meta \<noteq> None" and "apiVersion body \<noteq> None"
  shows "\<exists>ingress_def.
           ingress_def_of (ingress_name_of name) name (uid meta) (apiVersion body)
             auto_ingress_path (backend_port_of port_info) = Inr ingress_def \<and>
           (case read_namespaced_ingress api (ingress_name_of name) namespace s of
              (Inr existing_ingress, s') \<Rightarrow>
                calls api spec meta body namespace name annotations old s =
                  [ReadCall (ingress_name_of name) namespace,
                   ReplaceCall (ingress_name_of name) namespace ingress_def]
            | (Inl e, s') \<Rightarrow>
                if exc_status e = 404
                then calls api spec meta body namespace name annotations old s =
                       [ReadCall (ingress_name_of name) namespace,
                        CreateCall namespace ingress_def]
                else calls api spec meta body namespace name annotations old s =
                       [ReadCall (ingress_name_of name) namespace] \<and>
                     outcome api spec meta body namespace name annotations old s =
                       Inl (ApiError e))"
proof -
  from ingress_def_exists [OF assms(5) assms(6)] obtain d
    where d: "ingress_def_of (ingress_name_of name) name (uid meta) (apiVersion body)
                auto_ingress_path (backend_port_of port_info) = Inr d"
    by blast
  have "case read_namespaced_ingress api (ingress_name_of name) namespace s of
          (Inr existing_ingress, s') \<Rightarrow>
            calls api spec meta body namespace name annotations old s =
              [ReadCall (ingress_name_of name) namespace,
               ReplaceCall (ingress_name_of name) namespace d]
        | (Inl e, s') \<Rightarrow>
            if exc_status e = 404
            then calls api spec meta body namespace name annotations old s =
                   [ReadCall (ingress_name_of name) namespace, CreateCall namespace d]
            else calls api spec meta body namespace name annotations old s =
                   [ReadCall (ingress_name_of name) namespace] \<and>
                 outcome api spec meta body namespace name annotations old s = Inl (ApiError e)"
    by (simp add: calls_upsert [where ann = annotations, OF assms(1-4) d]
        run_upsert [where ann = annotations, OF assms(1-4) d] upsert_def
        split: prod.splits sum.splits)
  with d show ?thesis
    by (intro exI [where x = d] conjI)
qed

text \<open>
  C5 at \<open>svc1\<close>: on an empty cluster (create), on a cluster that holds the Ingress
  (replace), and against a client that refuses the read with status 500 (the run raises).
\<close>

theorem upsert_lookup_branching_witness:
  "svc1_annotations AUTO_INGRESS_ANNOTATION = Some ''/svc1'' \<and>
   ports svc1_spec = Some [svc1_port] \<and>
   (truthy_str (port_name svc1_port) \<or> truthy_int (port_number svc1_port)) \<and>
   uid svc1_meta \<noteq> None \<and> apiVersion svc1_body \<noteq> None \<and>
   calls cluster_api svc1_spec svc1_meta svc1_body ''ns1'' ''svc1'' svc1_annotations None
     Map.empty =
     [ReadCall ''auto-ingress-svc1-http'' ''ns1'', CreateCall ''ns1'' svc1_ingress] \<and>
   calls cluster_api svc1_spec svc1_meta svc1_body ''ns1'' ''svc1'' svc1_annotations None
     svc1_cluster =
     [ReadCall ''auto-ingress-svc1-http'' ''ns1'',
      ReplaceCall ''auto-ingress-svc1-http'' ''ns1'' svc1_ingress] \<and>
   calls (refusing_api 500) svc1_spec svc1_meta svc1_body ''ns1'' ''svc1'' svc1_annotations None
     () = [ReadCall ''auto-ingress-svc1-http'' ''ns1''] \<and>
   outcome (refusing_api 500) svc1_spec svc1_meta svc1_body ''ns1'' ''svc1'' svc1_annotations
     None () = Inl (ApiError (ApiException 500 ''refused''))"
  using
    upsert_lookup_branching [where annotations = svc1_annotations
      and auto_ingress_path = "''/svc1''" and spec = svc1_spec and port_info = svc1_port
      and other_ports = "[]" and api = cluster_api and name = "''svc1''"
      and namespace = "''ns1''" and s = Map.empty and meta = svc1_meta and body = svc1_body
      and old = None]
    upsert_lookup_branching [where annotations = svc1_annotations
      and auto_ingress_path = "''/svc1''" and spec = svc1_spec and port_info = svc1_port
      and other_ports = "[]" and api = cluster_api and name = "''svc1''"
      and namespace = "''ns1''" and s = svc1_cluster and meta = svc1_meta and body = svc1_body
      and old = None]
    upsert_lookup_branching [where annotations = svc1_annotations
      and auto_ingress_path = "''/svc1''" and spec = svc1_spec and port_info = svc1_port
      and other_ports = "[]" and api = "refusing_api 500" and name = "''svc1''"
      and namespace = "''ns1''" and s = "()" and meta = svc1_meta and body = svc1_body
      and old = None]
  by (simp add: scenario_defs cluster_api_def not_found_error_def backend_port_of_def
      ingress_def_of_def new_V1OwnerReference_def)

text \<open>
  C6. In the delete path (current annotation absent, prior annotation present), a delete
  that raises with status 404 is a success: the run completes without raising and logs no
  error. A delete that raises with any other status makes the run raise that exception. A
  delete that returns makes the run complete.
\<close>

theorem delete_not_found_is_success:
  assumes "\<not> truthy_str (annotations AUTO_INGRESS_ANNOTATION)"
    and "truthy_str (old_auto_ingress_path_of old)"
  shows "case delete_namespaced_ingress api (ingress_name_of name) namespace s of
           (Inr deleted, s') \<Rightarrow>
             outcome api spec meta body namespace name annotations old s = Inr ()
         | (Inl e, s') \<Rightarrow>
             if exc_status e = 404
             then outcome api spec meta body namespace name annotations old s = Inr () \<and>
                  (\<forall>r \<in> set (logged api spec meta body namespace name annotations old s).
                     fst r \<noteq> ERROR)
             else outcome api spec meta body namespace name annotations old s =
                    Inl (ApiError e)"
  using assms
  by (simp add: outcome_def logged_def run_absent annotation_absent_def Let_def
      split: prod.splits sum.splits)

text \<open>
  C6 at \<open>svc1\<close> with the annotation removed: on an empty cluster the delete answers 404
  and the run completes; against a client that refuses with status 500 the run raises.
\<close>

theorem delete_not_found_is_success_witness:
  "\<not> truthy_str (Map.empty AUTO_INGRESS_ANNOTATION) \<and>
   truthy_str (old_auto_ingress_path_of (Some svc1_body)) \<and>
   fst (delete_namespaced_ingress cluster_api (ingress_name_of ''svc1'') ''ns1'' Map.empty) =
     Inl (ApiException 404 ''Not Found'') \<and>
   outcome cluster_api svc1_spec svc1_meta svc1_body ''ns1'' ''svc1'' Map.empty (Some svc1_body)
     Map.empty = Inr () \<and>
   outcome (refusing_api 500) svc1_spec svc1_meta svc1_body ''ns1'' ''svc1'' Map.empty
     (Some svc1_body) () = Inl (ApiError (ApiException 500 ''refused''))"
  using
    delete_not_found_is_success [where annotations = Map.empty and old = "Some svc1_body"
      and api = cluster_api and name = "''svc1''" and namespace = "''ns1''" and s = Map.empty
      and spec = svc1_spec and meta = svc1_meta and body = svc1_body]
    delete_not_found_is_success [where annotations = Map.empty and old = "Some svc1_body"
      and api = "refusing_api 500" and name = "''svc1''" and namespace = "''ns1''" and s = "()"
      and spec = svc1_spec and meta = svc1_meta and body = svc1_body]
  by (simp add: scenario_defs cluster_api_def not_found_error_def)

section \<open>The Ingress written\<close>

text \<open>
  C7. Every object a run writes (the body of its create or replace call) has the name
  \<open>auto-ingress-<name>-http\<close>; exactly one annotation, the fixed entry-point key with the
  value \<open>web\<close>; exactly one owner reference, with the \<open>apiVersion\<close> of the Service body,
  the kind \<open>Service\<close>, the name and uid of the Service, \<open>controller\<close> and
  \<open>blockOwnerDeletion\<close> both true; and exactly one rule with one HTTP path whose path is
  the value of the annotation, whose path type is \<open>Prefix\<close> and whose backend service name
  is the name of the Service.
\<close>

theorem written_ingress_field_exact:
  "\<forall>c \<in> set (calls api spec meta body namespace name annotations old s).
     \<forall>b. written c = Some b \<longrightarrow>
       ing_api_version b = ''networking.k8s.io/v1'' \<and>
       ing_kind b = ''Ingress'' \<and>
       om_name (ing_metadata b) = ''auto-ingress-'' @ name @ ''-http'' \<and>
       om_annotations (ing_metadata b) =
         [''traefik.ingress.kubernetes.io/router.entrypoints'' \<mapsto> ''web''] \<and>
       owner_references (ing_metadata b) =
         [\<lparr>or_api_version = apiVersion body, or_kind = ''Service'', or_name = name,
           or_uid = uid meta, controller = True, block_owner_deletion = True\<rparr>] \<and>
       (\<exists>auto_ingress_path port.
          annotations AUTO_INGRESS_ANNOTATION = Some auto_ingress_path \<and>
          rules (ing_spec b) =
            [\<lparr>http = \<lparr>paths =
               [\<lparr>path = auto_ingress_path, path_type = ''Prefix'',
                 backend = \<lparr>service = \<lparr>sb_name = name, sb_port = port\<rparr>\<rparr>\<rparr>]\<rparr>\<rparr>])"
proof (cases "truthy_str (annotations AUTO_INGRESS_ANNOTATION)")
  case False
  then show ?thesis by (simp add: calls_absent)
next
  case True
  show ?thesis
  proof (cases "ports_valid spec")
    case False
    with True show ?thesis by (simp add: calls_invalid)
  next
    case valid: True
    from truthy_cases [OF True] obtain p
      where p: "annotations AUTO_INGRESS_ANNOTATION = Some p" "p \<noteq> []" by blast
    from valid_cases [OF valid] obtain port_info other_ports
      where q: "ports spec = Some (port_info # other_ports)"
        "truthy_str (port_name port_info) \<or> truthy_int (port_number port_info)" by blast
    show ?thesis
    proof (cases "ingress_def_of (ingress_name_of name) name (uid meta) (apiVersion body) p
        (backend_port_of port_info)")
      case (Inl e)
      show ?thesis
        by (simp add: calls_refused [where ann = annotations, OF p q(1) Inl])
    next
      case (Inr d)
      from Inr p show ?thesis
        by (simp add: calls_upsert [where ann = annotations, OF p q Inr] ingress_def_built
            ingress_name_of_def split: sum.splits)
    qed
  qed
qed

text \<open>C7 at the create call of \<open>svc1\<close> on an empty cluster.\<close>

theorem written_ingress_field_exact_witness:
  "CreateCall ''ns1'' svc1_ingress \<in>
     set (calls cluster_api svc1_spec svc1_meta svc1_body ''ns1'' ''svc1'' svc1_annotations None
       Map.empty) \<and>
   written (CreateCall ''ns1'' svc1_ingress) = Some svc1_ingress \<and>
   om_name (ing_metadata svc1_ingress) = ''auto-ingress-svc1-http'' \<and>
   owner_references (ing_metadata svc1_ingress) =
     [\<lparr>or_api_version = Some ''v1'', or_kind = ''Service'', or_name = ''svc1'',
       or_uid = Some ''uid-1'', controller = True, block_owner_deletion = True\<rparr>]"
  using
    written_ingress_field_exact [where api = cluster_api and spec = svc1_spec
      and meta = svc1_meta and body = svc1_body and namespace = "''ns1''"
      and name = "''svc1''" and annotations = svc1_annotations and old = None
      and s = Map.empty]
  by (simp add: scenario_defs run_defs)

text \<open>
  C8. In an upsert the backend port of every object written is built from the first entry
  of the port list alone: from its name when the name is set (not missing and not empty),
  and then the number is left out even if the entry has one; from its number only when the
  name is not set. The other entries are ignored: replacing them by any others gives the
  same run, with the same result, log and cluster.
\<close>

theorem first_port_name_preferred:
  assumes "annotations AUTO_INGRESS_ANNOTATION = Some auto_ingress_path"
    and "auto_ingress_path \<noteq> []"
    and "ports spec = Some (port_info # other_ports)"
  shows "(\<forall>c \<in> set (calls api spec meta body namespace name annotations old s).
            \<forall>b. written c = Some b \<longrightarrow>
              rules (ing_spec b) =
                [\<lparr>http = \<lparr>paths =
                   [\<lparr>path = auto_ingress_path, path_type = ''Prefix'',
                     backend = \<lparr>service = \<lparr>sb_name = name, sb_port =
                       (if truthy_str (port_name port_info)
                        then \<lparr>bp_name = port_name port_info, bp_number = None\<rparr>
                        else \<lparr>bp_name = None, bp_number = port_number port_info\<rparr>)\<rparr>\<rparr>\<rparr>]\<rparr>\<rparr>]) \<and>
         (\<forall>others.
            manage_ingress api (spec\<lparr>ports := Some (port_info # others)\<rparr>) meta body namespace
              name annotations old s =
            manage_ingress api spec meta body namespace name annotations old s)"
proof (intro conjI allI)
  show "\<forall>c \<in> set (calls api spec meta body namespace name annotations old s).
            \<forall>b. written c = Some b \<longrightarrow>
              rules (ing_spec b) =
                [\<lparr>http = \<lparr>paths =
                   [\<lparr>path = auto_ingress_path, path_type = ''Prefix'',
                     backend = \<lparr>service = \<lparr>sb_name = name, sb_port =
                       (if truthy_str (port_name port_info)
                        then \<lparr>bp_name = port_name port_info, bp_number = None\<rparr>
                        else \<lparr>bp_name = None, bp_number = port_number port_info\<rparr>)\<rparr>\<rparr>\<rparr>]\<rparr>\<rparr>]"
  proof (cases "ports_valid spec")
    case False
    with assms show ?thesis by (simp add: calls_invalid truthy_str_def)
  next
    case True
    with assms(3)
    have q: "truthy_str (port_name port_info) \<or> truthy_int (port_number port_info)"
      by (simp add: ports_valid_def)
    show ?thesis
    proof (cases "ingress_def_of (ingress_name_of name) name (uid meta) (apiVersion body)
        auto_ingress_path (backend_port_of port_info)")
      case (Inl e)
      show ?thesis
        by (simp add: calls_refused [where ann = annotations, OF assms Inl])
    next
      case (Inr d)
      from Inr show ?thesis
        by (simp add: calls_upsert [where ann = annotations, OF assms q Inr] ingress_def_built
            backend_port_of_def split: sum.splits)
    qed
  qed
next
  fix others
  from assms
  show "manage_ingress api (spec\<lparr>ports := Some (port_info # others)\<rparr>) meta body namespace
          name annotations old s =
        manage_ingress api spec meta body namespace name annotations old s"
    by (simp add: manage_ingress_def annotation_present_def)
qed

text \<open>
  C8 at \<open>svc1\<close> with the ports \<open>http\<close> (80) and \<open>metrics\<close> (9090): the object created
  has the backend port named \<open>http\<close> and no number, and the run is the run of the Service
  with the first port alone.
\<close>

theorem first_port_name_preferred_witness:
  "svc1_annotations AUTO_INGRESS_ANNOTATION = Some ''/svc1'' \<and>
   ports two_ports_spec =
     Some [\<lparr>port_name = Some ''http'', port_number = Some 80\<rparr>,
           \<lparr>port_name = Some ''metrics'', port_number = Some 9090\<rparr>] \<and>
   calls cluster_api two_ports_spec svc1_meta svc1_body ''ns1'' ''svc1'' svc1_annotations None
     Map.empty =
     [ReadCall ''auto-ingress-svc1-http'' ''ns1'', CreateCall ''ns1'' svc1_ingress] \<and>
   manage_ingress cluster_api svc1_spec svc1_meta svc1_body ''ns1'' ''svc1'' svc1_annotations
     None Map.empty =
   manage_ingress cluster_api two_ports_spec svc1_meta svc1_body ''ns1'' ''svc1''
     svc1_annotations None Map.empty"
  using
    first_port_name_preferred [where annotations = svc1_annotations
      and auto_ingress_path = "''/svc1''" and spec = two_ports_spec
      and port_info = "\<lparr>port_name = Some ''http'', port_number = Some 80\<rparr>"
      and other_ports = "[\<lparr>port_name = Some ''metrics'', port_number = Some 9090\<rparr>]"
      and api = cluster_api and meta = svc1_meta and body = svc1_body
      and namespace = "''ns1''" and name = "''svc1''" and old = None and s = Map.empty]
  by (simp add: scenario_defs run_defs)

section \<open>Frame: how much a run may change\<close>

text \<open>
  C9. Whatever the event and whatever the client answers, a run issues at most one call
  among create, replace and delete.
\<close>

theorem at_most_one_mutating_call:
  "length (filter is_mutating (calls api spec meta body namespace name annotations old s)) \<le> 1"
proof (cases "truthy_str (annotations AUTO_INGRESS_ANNOTATION)")
  case False
  then show ?thesis by (simp add: calls_absent)
next
  case True
  show ?thesis
  proof (cases "ports_valid spec")
    case False
    with True show ?thesis by (simp add: calls_invalid)
  next
    case valid: True
    from truthy_cases [OF True] obtain p
      where p: "annotations AUTO_INGRESS_ANNOTATION = Some p" "p \<noteq> []" by blast
    from valid_cases [OF valid] obtain port_info other_ports
      where q: "ports spec = Some (port_info # other_ports)"
        "truthy_str (port_name port_info) \<or> truthy_int (port_number port_info)" by blast
    show ?thesis
    proof (cases "ingress_def_of (ingress_name_of name) name (uid meta) (apiVersion body) p
        (backend_port_of port_info)")
      case (Inl e)
      show ?thesis
        by (simp add: calls_refused [where ann = annotations, OF p q(1) Inl])
    next
      case (Inr d)
      show ?thesis
        by (simp add: calls_upsert [where ann = annotations, OF p q Inr] split: sum.splits)
    qed
  qed
qed

text \<open>C9 at \<open>svc1\<close> on the cluster that holds its Ingress: one replace.\<close>

theorem at_most_one_mutating_call_witness:
  "length (filter is_mutating
     (calls cluster_api svc1_spec svc1_meta svc1_body ''ns1'' ''svc1'' svc1_annotations None
        svc1_cluster)) = 1"
  using
    at_most_one_mutating_call [where api = cluster_api and spec = svc1_spec
      and meta = svc1_meta and body = svc1_body and namespace = "''ns1''"
      and name = "''svc1''" and annotations = svc1_annotations and old = None
      and s = svc1_cluster]
  by (simp add: scenario_defs run_defs)

section \<open>Empty annotation values\<close>

text \<open>
  C10. An annotation set to the empty string is treated as absent: the run is the very run
  of the same event with the annotation key removed (same result, log and cluster), so no
  upsert is attempted and the only call there can be is the delete of the removal path.
  And a prior annotation whose value was the empty string does not count as present: no
  delete call is issued.
\<close>

theorem empty_annotation_is_absent:
  "(annotations AUTO_INGRESS_ANNOTATION = Some [] \<longrightarrow>
      manage_ingress api spec meta body namespace name annotations old s =
        manage_ingress api spec meta body namespace name
          (annotations(AUTO_INGRESS_ANNOTATION := None)) old s \<and>
      calls api spec meta body namespace name annotations old s =
        (if truthy_str (old_auto_ingress_path_of old)
         then [DeleteCall (ingress_name_of name) namespace] else [])) \<and>
   (old_auto_ingress_path_of old = Some [] \<longrightarrow>
      (\<forall>n ns. DeleteCall n ns \<notin> set (calls api spec meta body namespace name annotations old s)))"
proof (intro conjI impI)
  assume e: "annotations AUTO_INGRESS_ANNOTATION = Some []"
  then show "manage_ingress api spec meta body namespace name annotations old s =
        manage_ingress api spec meta body namespace name
          (annotations(AUTO_INGRESS_ANNOTATION := None)) old s"
    by (simp add: manage_ingress_def)
  from e show "calls api spec meta body namespace name annotations old s =
        (if truthy_str (old_auto_ingress_path_of old)
         then [DeleteCall (ingress_name_of name) namespace] else [])"
    by (simp add: calls_absent truthy_str_def)
next
  assume o: "old_auto_ingress_path_of old = Some []"
  show "\<forall>n ns. DeleteCall n ns \<notin> set (calls api spec meta body namespace name annotations old s)"
  proof (cases "truthy_str (annotations AUTO_INGRESS_ANNOTATION)")
    case False
    with o show ?thesis by (simp add: calls_absent truthy_str_def)
  next
    case True
    show ?thesis
    proof (cases "ports_valid spec")
      case False
      with True show ?thesis by (simp add: calls_invalid)
    next
      case valid: True
      from truthy_cases [OF True] obtain p
        where p: "annotations AUTO_INGRESS_ANNOTATION = Some p" "p \<noteq> []" by blast
      from valid_cases [OF valid] obtain port_info other_ports
        where q: "ports spec = Some (port_info # other_ports)"
          "truthy_str (port_name port_info) \<or> truthy_int (port_number port_info)" by blast
      show ?thesis
      proof (cases "ingress_def_of (ingress_name_of name) name (uid meta) (apiVersion body) p
          (backend_port_of port_info)")
        case (Inl e)
        show ?thesis
          by (simp add: calls_refused [where ann = annotations, OF p q(1) Inl])
      next
        case (Inr d)
        show ?thesis
          by (simp add: calls_upsert [where ann = annotations, OF p q Inr] split: sum.splits)
      qed
    qed
  qed
qed

text \<open>
  C10 at \<open>svc1\<close>: with the annotation set to the empty string and the prior annotation
  \<open>/svc1\<close> the only call is the delete; with no annotation and a prior annotation set to
  the empty string there is no call.
\<close>

theorem empty_annotation_is_absent_witness:
  "empty_annotations AUTO_INGRESS_ANNOTATION = Some [] \<and>
   old_auto_ingress_path_of (Some empty_old) = Some [] \<and>
   calls cluster_api svc1_spec svc1_meta svc1_body ''ns1'' ''svc1'' empty_annotations
     (Some svc1_body) svc1_cluster = [DeleteCall ''auto-ingress-svc1-http'' ''ns1''] \<and>
   calls cluster_api svc1_spec svc1_meta svc1_body ''ns1'' ''svc1'' Map.empty
     (Some empty_old) svc1_cluster = []"
  using
    empty_annotation_is_absent [where annotations = empty_annotations and api = cluster_api
      and spec = svc1_spec and meta = svc1_meta and body = svc1_body
      and namespace = "''ns1''" and name = "''svc1''" and old = "Some svc1_body"
      and s = svc1_cluster]
    empty_annotation_is_absent [where annotations = Map.empty and api = cluster_api
      and spec = svc1_spec and meta = svc1_meta and body = svc1_body
      and namespace = "''ns1''" and name = "''svc1''" and old = "Some empty_old"
      and s = svc1_cluster]
  by (simp add: scenario_defs run_defs)

end
